theory Spec2Isabelle
  imports Complex_Main "HOL-Library.Log_Nat"
begin

chapter \<open>IronWallet: the screens' arithmetic and bookkeeping\<close>

text \<open>
  The application is a set of React Native screens written in TypeScript. Each screen
  keeps component state, reads and writes tables of a remote relational store and
  computes with JavaScript numbers. The embedding below follows the source files
  function by function:
  \<^item> a TypeScript \<open>number\<close> is a \<open>jsnum\<close>: an IEEE 754 binary64 value, with the
    arithmetic rounding to nearest, ties to even;
  \<^item> a TypeScript \<open>string\<close> is a \<open>string\<close>;
  \<^item> a table of the store is a list of rows, a row a record with the columns the
    screens read and write; the store keeps what a screen writes (the checks of the
    schema are predicates of their own);
  \<^item> a handler is a function from the state before to the state after, an early
    \<open>return\<close> being the branch that gives the state back unchanged.
\<close>

section \<open>JavaScript numbers\<close>

text \<open>
  A number is \<open>NaN\<close>, an infinity (\<open>Inf True\<close> is \<open>+Infinity\<close>) or a finite binary64
  value, held as the rational it denotes. The sign of zero is not kept: no expression of
  the screens tells \<open>-0\<close> from \<open>0\<close>.
\<close>

datatype jsnum = NaN | Inf bool | Fin rat

text \<open>\<open>ilog2 q\<close> is the binary exponent of a positive rational: \<open>2^e \<le> q < 2^(e+1)\<close>.\<close>

definition ilog2 :: "rat \<Rightarrow> int" where
  "ilog2 q =
     (let (a, b) = quotient_of q;
          e0 = bitlen a - bitlen b
      in if 2 powi e0 \<le> q then e0 else e0 - 1)"

text \<open>Rounding to the nearest integer, a tie going to the even neighbour.\<close>

definition rne :: "rat \<Rightarrow> int" where
  "rne t =
     (let f = \<lfloor>t\<rfloor>;
          r = t - of_int f
      in if r < 1 / 2 then f
         else if 1 / 2 < r then f + 1
         else if even f then f else f + 1)"

text \<open>
  \<open>fl q\<close> is the binary64 value nearest to the rational \<open>q\<close>: 53 significant bits
  \<open>m\<close> at the spacing \<open>2^(e - 52)\<close>, the exponent \<open>e\<close> at least \<open>-1022\<close> (below it the
  spacing stays \<open>2^-1074\<close>: the subnormal numbers), and an infinity when the rounded
  value reaches \<open>2^1024\<close>, that is when \<open>e\<close> is 1024 or more, or \<open>e\<close> is 1023 and the
  significant bits round up to \<open>2^53\<close>.
\<close>

definition fl :: "rat \<Rightarrow> jsnum" where
  "fl q =
     (if q = 0 then Fin 0
      else
        let e = max (ilog2 \<bar>q\<bar>) (- 1022);
            ulp = 2 powi (e - 52);
            m = rne (\<bar>q\<bar> / ulp)
        in if 1024 \<le> e \<or> (e = 1023 \<and> m = 2 ^ 53) then Inf (0 < q)
           else Fin (sgn q * (of_int m * ulp)))"

text \<open>The operators \<open>*\<close>, \<open>/\<close>, \<open>+\<close> and \<open>-\<close> of the language.\<close>

fun jmul :: "jsnum \<Rightarrow> jsnum \<Rightarrow> jsnum" where
  "jmul NaN _ = NaN"
| "jmul _ NaN = NaN"
| "jmul (Inf s) (Inf t) = Inf (s = t)"
| "jmul (Inf s) (Fin b) = (if b = 0 then NaN else Inf (s = (0 < b)))"
| "jmul (Fin a) (Inf t) = (if a = 0 then NaN else Inf (t = (0 < a)))"
| "jmul (Fin a) (Fin b) = fl (a * b)"

fun jdiv :: "jsnum \<Rightarrow> jsnum \<Rightarrow> jsnum" where
  "jdiv NaN _ = NaN"
| "jdiv _ NaN = NaN"
| "jdiv (Inf s) (Inf t) = NaN"
| "jdiv (Inf s) (Fin b) = Inf (s = (0 \<le> b))"
| "jdiv (Fin a) (Inf t) = Fin 0"
| "jdiv (Fin a) (Fin b) =
     (if b = 0 then (if a = 0 then NaN else Inf (0 < a)) else fl (a / b))"

fun jadd :: "jsnum \<Rightarrow> jsnum \<Rightarrow> jsnum" where
  "jadd NaN _ = NaN"
| "jadd _ NaN = NaN"
| "jadd (Inf s) (Inf t) = (if s = t then Inf s else NaN)"
| "jadd (Inf s) (Fin b) = Inf s"
| "jadd (Fin a) (Inf t) = Inf t"
| "jadd (Fin a) (Fin b) = fl (a + b)"

fun jneg :: "jsnum \<Rightarrow> jsnum" where
  "jneg NaN = NaN"
| "jneg (Inf s) = Inf (\<not> s)"
| "jneg (Fin a) = Fin (- a)"

definition jsub :: "jsnum \<Rightarrow> jsnum \<Rightarrow> jsnum" where
  "jsub x y = jadd x (jneg y)"

text \<open>The comparisons: every comparison with \<open>NaN\<close> is false.\<close>

fun jless :: "jsnum \<Rightarrow> jsnum \<Rightarrow> bool" where
  "jless NaN _ = False"
| "jless _ NaN = False"
| "jless (Inf s) (Inf t) = (\<not> s \<and> t)"
| "jless (Inf s) (Fin b) = (\<not> s)"
| "jless (Fin a) (Inf t) = t"
| "jless (Fin a) (Fin b) = (a < b)"

fun jle :: "jsnum \<Rightarrow> jsnum \<Rightarrow> bool" where
  "jle NaN _ = False"
| "jle _ NaN = False"
| "jle (Inf s) (Inf t) = (\<not> s \<or> t)"
| "jle (Inf s) (Fin b) = (\<not> s)"
| "jle (Fin a) (Inf t) = t"
| "jle (Fin a) (Fin b) = (a \<le> b)"

definition jgt :: "jsnum \<Rightarrow> jsnum \<Rightarrow> bool" where
  "jgt x y = jless y x"


text \<open>
  \<open>Math.round\<close>: the integer nearest to the argument, a tie going towards \<open>+Infinity\<close>.
\<close>

fun Math_round :: "jsnum \<Rightarrow> jsnum" where
  "Math_round NaN = NaN"
| "Math_round (Inf s) = Inf s"
| "Math_round (Fin a) = Fin (of_int \<lfloor>a + 1 / 2\<rfloor>)"





section \<open>Text input\<close>

definition is_space :: "char \<Rightarrow> bool" where
  "is_space c = (c \<in> set [CHR 0x09, CHR 0x0A, CHR 0x0B, CHR 0x0C, CHR 0x0D, CHR '' ''])"

definition is_digit :: "char \<Rightarrow> bool" where
  "is_digit c = (c \<in> set ''0123456789'')"


definition digit_val :: "char \<Rightarrow> int" where
  "digit_val c =
     (case map_of (zip ''0123456789abcdef'' [0 .. 15]) c of
        Some d \<Rightarrow> d
      | None \<Rightarrow> (case map_of (zip ''ABCDEF'' [10 .. 15]) c of Some d \<Rightarrow> d | None \<Rightarrow> 0))"

text \<open>The number a string of digits denotes in radix \<open>b\<close>, read from the left.\<close>

definition digits_val :: "int \<Rightarrow> string \<Rightarrow> int" where
  "digits_val b ds = foldl (\<lambda>acc c. acc * b + digit_val c) 0 ds"


text \<open>
  The exponent part of a decimal literal: \<open>e\<close> or \<open>E\<close>, a sign, digits. Without digits
  there is no exponent part, and the literal ends before the \<open>e\<close>.
\<close>

definition exponent_part :: "string \<Rightarrow> int" where
  "exponent_part r =
     (if take 1 r = ''e'' \<or> take 1 r = ''E'' then
        let r' = drop 1 r;
            neg = (take 1 r' = ''-'');
            ds = takeWhile is_digit
                   (if take 1 r' = ''+'' \<or> take 1 r' = ''-'' then drop 1 r' else r')
        in if neg then - digits_val 10 ds else digits_val 10 ds
      else 0)"

text \<open>
  \<open>parseFloat(text)\<close>: leading white space is dropped and the longest prefix that is a
  decimal literal is read (a sign, then \<open>Infinity\<close>, or digits with an optional
  fraction and exponent); its value is rounded to binary64. No such prefix gives \<open>NaN\<close>.
\<close>

definition parseFloat :: "string \<Rightarrow> jsnum" where
  "parseFloat s =
     (let t = dropWhile is_space s;
          neg = (take 1 t = ''-'');
          u = (if take 1 t = ''+'' \<or> take 1 t = ''-'' then drop 1 t else t)
      in if take 8 u = ''Infinity'' then Inf (\<not> neg)
         else
           let ip = takeWhile is_digit u;
               r1 = dropWhile is_digit u;
               dot = (take 1 r1 = ''.'');
               fp = (if dot then takeWhile is_digit (drop 1 r1) else []);
               r2 = (if dot then dropWhile is_digit (drop 1 r1) else r1);
               m = of_int (digits_val 10 (ip @ fp)) / 10 ^ length fp * 10 powi exponent_part r2
           in if ip = [] \<and> fp = [] then NaN else fl (if neg then - m else m))"

text \<open>The decimal digits of a non-negative integer.\<close>

definition digit_char :: "int \<Rightarrow> char" where
  "digit_char d = ''0123456789'' ! nat d"

function dec_str :: "int \<Rightarrow> string" where
  "dec_str n = (if n < 10 then [digit_char n] else dec_str (n div 10) @ [digit_char (n mod 10)])"
  by pat_completeness auto
termination
  by (relation "measure nat") auto

text \<open>
  \<open>x.toFixed(2)\<close>: the integer \<open>n\<close> with \<open>n / 100\<close> nearest to \<open>x\<close> (of two such the
  larger), written with two digits after the point. From \<open>10^21\<close> on the language
  switches to the exponent notation of \<open>String(x)\<close>, which is not modelled: \<open>None\<close>.
\<close>

definition toFixed2 :: "jsnum \<Rightarrow> string option" where
  "toFixed2 x =
     (case x of
        NaN \<Rightarrow> Some ''NaN''
      | Inf s \<Rightarrow> Some (if s then ''Infinity'' else ''-Infinity'')
      | Fin q \<Rightarrow>
          if 10 ^ 21 \<le> \<bar>q\<bar> then None
          else
            let n = \<lfloor>\<bar>q\<bar> * 100 + 1 / 2\<rfloor>;
                m = replicate (3 - length (dec_str n)) (CHR ''0'') @ dec_str n;
                k = length m
            in Some ((if q < 0 then ''-'' else []) @ take (k - 2) m @ ''.'' @ drop (k - 2) m))"

definition formatCurrency :: "jsnum \<Rightarrow> string option" where
  "formatCurrency cents = map_option (\<lambda>t. ''$'' @ t) (toFixed2 (jdiv cents (Fin 100)))"

text \<open>
  Every screen turns an amount typed in currency units into cents with
  \<open>Math.round(parseFloat(text) * 100)\<close>.
\<close>

definition toCents :: "string \<Rightarrow> jsnum" where
  "toCents text = Math_round (jmul (parseFloat text) (Fin 100))"

section \<open>The store\<close>

text \<open>
  The rows of the tables, with the columns the screens use. An identifier the store
  generates (\<open>gen_random_uuid()\<close>) is the next number of a counter. A time stamp is a
  number of milliseconds. A column left out of an insert, or given as \<open>undefined\<close>, is
  \<open>None\<close> where the screens do so.
\<close>

type_synonym user_id = string

record profile_row =
  p_user_id :: user_id
  monthly_income :: jsnum
  onboarding_completed :: bool
  impulse_blocker_enabled :: bool
  show_total_balance :: bool

record budget_category_row =
  bc_id :: nat
  bc_user_id :: user_id
  category_name :: string
  category_type :: string
  allocation_percentage :: jsnum
  bc_current_balance :: jsnum
  color_code :: string

record income_split_row =
  is_user_id :: user_id
  category_id :: "nat option"
  split_percentage :: jsnum

record transaction_row =
  t_id :: nat
  t_user_id :: user_id
  transaction_type :: string
  amount :: jsnum
  merchant :: string
  description :: string
  transaction_date :: int
  is_impulse :: bool

record locked_saving_row =
  ls_id :: nat
  ls_user_id :: user_id
  ls_amount :: jsnum
  lock_reason :: string
  locked_at :: int
  unlock_date :: int
  status :: string

record treat_wallet_row =
  tw_user_id :: user_id
  current_balance :: jsnum
  monthly_budget :: jsnum
  total_spent_this_month :: jsnum

record db =
  profiles :: "profile_row list"
  budget_categories :: "budget_category_row list"
  income_splits :: "income_split_row list"
  transactions :: "transaction_row list"
  locked_savings :: "locked_saving_row list"
  treat_wallet :: "treat_wallet_row list"
  next_id :: nat

text \<open>The store of a fresh installation: no rows.\<close>

definition empty_db :: db where
  "empty_db =
     \<lparr>profiles = [], budget_categories = [], income_splits = [], transactions = [],
      locked_savings = [], treat_wallet = [], next_id = 0\<rparr>"

text \<open>
  A small store to run the handlers on: the user \<open>u\<close> with an income of 5000.00, a
  treat wallet with a balance of 100.00 and a monthly budget of 50.00, and four
  transactions, the last of them of another user.
\<close>

definition sample_db :: db where
  "sample_db =
     \<lparr>profiles =
        [\<lparr>p_user_id = ''u'', monthly_income = Fin 500000, onboarding_completed = True,
          impulse_blocker_enabled = False, show_total_balance = True\<rparr>],
      budget_categories = [],
      income_splits = [],
      transactions =
        [\<lparr>t_id = 0, t_user_id = ''u'', transaction_type = ''income'', amount = Fin 100000,
          merchant = ''Employer'', description = [], transaction_date = 10, is_impulse = False\<rparr>,
         \<lparr>t_id = 1, t_user_id = ''u'', transaction_type = ''expense'', amount = Fin 59000,
          merchant = ''Landlord'', description = [], transaction_date = 20, is_impulse = False\<rparr>,
         \<lparr>t_id = 2, t_user_id = ''u'', transaction_type = ''expense'', amount = Fin 12500,
          merchant = ''Shop'', description = [], transaction_date = 30, is_impulse = True\<rparr>,
         \<lparr>t_id = 3, t_user_id = ''v'', transaction_type = ''expense'', amount = Fin 700,
          merchant = ''Cafe'', description = [], transaction_date = 40, is_impulse = False\<rparr>],
      locked_savings = [],
      treat_wallet =
        [\<lparr>tw_user_id = ''u'', current_balance = Fin 10000, monthly_budget = Fin 5000,
          total_spent_this_month = Fin 0\<rparr>],
      next_id = 4\<rparr>"

text \<open>\<open>.maybeSingle()\<close>: the row when the query selects exactly one, \<open>null\<close> otherwise.\<close>

fun maybeSingle :: "'a list \<Rightarrow> 'a option" where
  "maybeSingle [r] = Some r"
| "maybeSingle _ = None"



definition income_split_not_null :: "income_split_row \<Rightarrow> bool" where
  "income_split_not_null r = (category_id r \<noteq> None)"

section \<open>Onboarding\<close>

record category =
  cat_type :: string
  cat_name :: string
  percentage :: jsnum
  color :: string

definition DEFAULT_CATEGORIES :: "category list" where
  "DEFAULT_CATEGORIES =
     [\<lparr>cat_type = ''bills'', cat_name = ''Bills'', percentage = Fin 30, color = ''#FF6B6B''\<rparr>,
      \<lparr>cat_type = ''goals'', cat_name = ''Goals'', percentage = Fin 20, color = ''#4ECDC4''\<rparr>,
      \<lparr>cat_type = ''daily'', cat_name = ''Daily'', percentage = Fin 25, color = ''#FFD700''\<rparr>,
      \<lparr>cat_type = ''freedom'', cat_name = ''Freedom'', percentage = Fin 20, color = ''#95E1D3''\<rparr>,
      \<lparr>cat_type = ''emergency'', cat_name = ''Emergency'', percentage = Fin 5, color = ''#F38181''\<rparr>]"

datatype js_error = TypeError | RangeError



text \<open>The \<open>disabled\<close> property of the two buttons of the screen.\<close>

definition next_disabled :: "string \<Rightarrow> bool" where
  "next_disabled monthlyIncome = (monthlyIncome = [] \<or> jle (parseFloat monthlyIncome) (Fin 0))"


text \<open>
  One round of the loop of \<open>handleComplete\<close>: the category of this type is looked up
  for the user; when there is none, a budget category and an income split are
  inserted. The split's \<open>category_id\<close> is \<open>existingCategory?.id\<close>.
\<close>

definition complete_category :: "user_id \<Rightarrow> db \<Rightarrow> category \<Rightarrow> db" where
  "complete_category uid d category =
     (let existingCategory =
            maybeSingle (filter (\<lambda>r. bc_user_id r = uid \<and> category_type r = cat_type category)
                           (budget_categories d))
      in if existingCategory = None then
           let d1 = d\<lparr>budget_categories := budget_categories d @
                       [\<lparr>bc_id = next_id d, bc_user_id = uid, category_name = cat_name category,
                         category_type = cat_type category,
                         allocation_percentage = percentage category,
                         bc_current_balance = Fin 0, color_code = color category\<rparr>],
                      next_id := Suc (next_id d)\<rparr>
           in d1\<lparr>income_splits := income_splits d1 @
                    [\<lparr>is_user_id = uid, category_id = map_option bc_id existingCategory,
                      split_percentage = percentage category\<rparr>]\<rparr>
         else d)"

text \<open>
  \<open>handleComplete\<close>: without a user nothing happens; otherwise the profile of the user
  gets the income in cents and the onboarding flag, and the loop runs over the
  categories of the screen.
\<close>

definition handleComplete :: "user_id option \<Rightarrow> string \<Rightarrow> category list \<Rightarrow> db \<Rightarrow> db" where
  "handleComplete user monthlyIncome categories d =
     (case user of
        None \<Rightarrow> d
      | Some uid \<Rightarrow>
          let incomeInCents = toCents monthlyIncome;
              d0 = d\<lparr>profiles :=
                      map (\<lambda>p. if p_user_id p = uid
                                then p\<lparr>monthly_income := incomeInCents, onboarding_completed := True\<rparr>
                                else p)
                        (profiles d)\<rparr>
          in foldl (complete_category uid) d0 categories)"



section \<open>Locked savings\<close>

text \<open>
  The state of the screen: the savings fetched last and the fields of the form. The
  user of the session, the clock and \<open>new Date(text)\<close> are parameters: \<open>parseDate\<close>
  gives the time stamp of a date text, \<open>None\<close> for an invalid date.
\<close>

record locked_screen =
  savings :: "locked_saving_row list"
  lk_modalVisible :: bool
  lk_amount :: string
  lk_reason :: string
  lk_unlockDate :: string

definition fetchSavings :: "user_id option \<Rightarrow> db \<Rightarrow> locked_screen \<Rightarrow> locked_screen" where
  "fetchSavings user d s =
     (case user of
        None \<Rightarrow> s
      | Some uid \<Rightarrow>
          s\<lparr>savings :=
              sort_key unlock_date
                (filter (\<lambda>r. ls_user_id r = uid \<and> status r \<in> set [''active'', ''unlocked''])
                   (locked_savings d))\<rparr>)"

text \<open>
  \<open>handleLockSavings\<close>: a missing user or an empty field returns at once;
  \<open>toISOString\<close> of an invalid date throws; otherwise the saving is inserted with the
  status \<open>active\<close>, the form is cleared and the list fetched again.
\<close>

definition handleLockSavings ::
  "user_id option \<Rightarrow> (string \<Rightarrow> int option) \<Rightarrow> int \<Rightarrow> locked_screen \<times> db
     \<Rightarrow> js_error + locked_screen \<times> db" where
  "handleLockSavings user parseDate now sd =
     (let (s, d) = sd in
      case user of
        None \<Rightarrow> Inr (s, d)
      | Some uid \<Rightarrow>
          if lk_amount s = [] \<or> lk_reason s = [] \<or> lk_unlockDate s = [] then Inr (s, d)
          else
            let amountInCents = toCents (lk_amount s) in
            (case parseDate (lk_unlockDate s) of
               None \<Rightarrow> Inl RangeError
             | Some unlockDateTime \<Rightarrow>
                 let d' = d\<lparr>locked_savings := locked_savings d @
                             [\<lparr>ls_id = next_id d, ls_user_id = uid, ls_amount = amountInCents,
                               lock_reason = lk_reason s, locked_at = now,
                               unlock_date = unlockDateTime, status = ''active''\<rparr>],
                           next_id := Suc (next_id d)\<rparr>;
                     s' = s\<lparr>lk_modalVisible := False, lk_amount := [], lk_reason := [],
                            lk_unlockDate := []\<rparr>
                 in Inr (fetchSavings user d' s', d')))"

definition handleUnlock :: "user_id option \<Rightarrow> nat \<Rightarrow> locked_screen \<times> db \<Rightarrow> locked_screen \<times> db" where
  "handleUnlock user i sd =
     (let (s, d) = sd;
          d' = d\<lparr>locked_savings :=
                  map (\<lambda>r. if ls_id r = i then r\<lparr>status := ''unlocked''\<rparr> else r) (locked_savings d)\<rparr>
      in (fetchSavings user d' s, d'))"

text \<open>\<open>new Date(unlockDateString) <= new Date()\<close>, the second date being the clock.\<close>

definition isUnlockable :: "int \<Rightarrow> int \<Rightarrow> bool" where
  "isUnlockable now unlockDate = (unlockDate \<le> now)"

definition activeSavings :: "locked_screen \<Rightarrow> locked_saving_row list" where
  "activeSavings s = filter (\<lambda>r. status r = ''active'') (savings s)"

text \<open>
  The screen shows a card for each active saving, with the button \<open>Unlock Now\<close> on the
  cards whose date is unlockable.
\<close>

definition unlock_offered :: "int \<Rightarrow> locked_screen \<Rightarrow> locked_saving_row \<Rightarrow> bool" where
  "unlock_offered now s r = (r \<in> set (activeSavings s) \<and> isUnlockable now (unlock_date r))"

text \<open>
  What a user can do on the screen, as steps of the clock, the screen and the store:
  time passes, the form is filled in, the list is refreshed, a saving is locked, and a
  button \<open>Unlock Now\<close> that the screen offers is pressed.
\<close>

inductive locked_step ::
  "user_id option \<Rightarrow> (string \<Rightarrow> int option) \<Rightarrow> int \<times> locked_screen \<times> db
     \<Rightarrow> int \<times> locked_screen \<times> db \<Rightarrow> bool"
  for user :: "user_id option" and parseDate :: "string \<Rightarrow> int option" where
  tick: "now \<le> now' \<Longrightarrow> locked_step user parseDate (now, s, d) (now', s, d)"
| edit: "locked_step user parseDate (now, s, d)
          (now, s\<lparr>lk_modalVisible := v, lk_amount := a, lk_reason := r, lk_unlockDate := u\<rparr>, d)"
| refresh: "locked_step user parseDate (now, s, d) (now, fetchSavings user d s, d)"
| lock: "handleLockSavings user parseDate now (s, d) = Inr (s', d')
          \<Longrightarrow> locked_step user parseDate (now, s, d) (now, s', d')"
| unlock: "unlock_offered now s r \<Longrightarrow> handleUnlock user (ls_id r) (s, d) = (s', d')
          \<Longrightarrow> locked_step user parseDate (now, s, d) (now, s', d')"

text \<open>
  What the steps keep true. \<open>locked_consistent\<close>: the identifiers of the store are below
  its counter and pairwise different, and each saving on the screen is a saving of the
  store with the same unlock date. \<open>no_early_unlock\<close>: every unlocked saving of the
  store has its unlock date behind the clock.
\<close>

definition locked_consistent :: "locked_screen \<Rightarrow> db \<Rightarrow> bool" where
  "locked_consistent s d =
     (list_all (\<lambda>r. ls_id r < next_id d) (locked_savings d)
      \<and> distinct (map ls_id (locked_savings d))
      \<and> list_all (\<lambda>c. list_ex (\<lambda>r. ls_id r = ls_id c \<and> unlock_date r = unlock_date c)
                            (locked_savings d))
            (savings s))"

definition no_early_unlock :: "int \<Rightarrow> db \<Rightarrow> bool" where
  "no_early_unlock now d =
     list_all (\<lambda>r. status r = ''unlocked'' \<longrightarrow> unlock_date r \<le> now) (locked_savings d)"

definition locked_inv :: "int \<times> locked_screen \<times> db \<Rightarrow> bool" where
  "locked_inv st = (case st of (now, s, d) \<Rightarrow> locked_consistent s d \<and> no_early_unlock now d)"

text \<open>
  A run of the screen over the empty store, for the user \<open>u\<close>: the form, the saving it
  locks (until the instant 100, whatever the date text) and the screen that shows it.
\<close>

definition sample_parseDate :: "string \<Rightarrow> int option" where
  "sample_parseDate text = Some 100"

definition sample_saving :: "string \<Rightarrow> locked_saving_row" where
  "sample_saving st =
     \<lparr>ls_id = 0, ls_user_id = ''u'', ls_amount = Fin 2500, lock_reason = ''Trip'',
      locked_at = 0, unlock_date = 100, status = st\<rparr>"

definition sample_locked_screen :: "locked_saving_row list \<Rightarrow> bool \<Rightarrow> locked_screen" where
  "sample_locked_screen rows filled =
     \<lparr>savings = rows, lk_modalVisible = filled,
      lk_amount = (if filled then ''25'' else []),
      lk_reason = (if filled then ''Trip'' else []),
      lk_unlockDate = (if filled then ''2030-01-01'' else [])\<rparr>"

definition sample_locked_db :: "string \<Rightarrow> db" where
  "sample_locked_db st = empty_db\<lparr>locked_savings := [sample_saving st], next_id := 1\<rparr>"

section \<open>Transactions\<close>

datatype tx_filter = All | Income | Expense

fun filter_name :: "tx_filter \<Rightarrow> string" where
  "filter_name All = ''all''"
| "filter_name Income = ''income''"
| "filter_name Expense = ''expense''"

text \<open>
  \<open>fetchTransactions\<close>: the transactions of the user, of the type of the filter when one
  is selected, the latest first, the first 50 of them. (Rows of one date keep the order
  of the store.)
\<close>

definition fetchTransactions ::
  "user_id option \<Rightarrow> tx_filter \<Rightarrow> db \<Rightarrow> transaction_row list \<Rightarrow> transaction_row list" where
  "fetchTransactions user flt d txs =
     (case user of
        None \<Rightarrow> txs
      | Some uid \<Rightarrow>
          take 50
            (sort_key (\<lambda>t. - transaction_date t)
               (filter (\<lambda>t. t_user_id t = uid \<and> (flt = All \<or> transaction_type t = filter_name flt))
                  (transactions d))))"

text \<open>\<open>.filter((t) => t.transaction_type === type).reduce((sum, t) => sum + t.amount, 0)\<close>\<close>

definition total_of_type :: "string \<Rightarrow> transaction_row list \<Rightarrow> jsnum" where
  "total_of_type ty txs =
     foldl (\<lambda>sum t. jadd sum (amount t)) (Fin 0) (filter (\<lambda>t. transaction_type t = ty) txs)"

definition totalIncome :: "transaction_row list \<Rightarrow> jsnum" where
  "totalIncome txs = total_of_type ''income'' txs"

definition totalExpenses :: "transaction_row list \<Rightarrow> jsnum" where
  "totalExpenses txs = total_of_type ''expense'' txs"

section \<open>Treat wallet\<close>

record treat_screen =
  wallet :: "treat_wallet_row option"
  tr_transactions :: "transaction_row list"
  tr_modalVisible :: bool
  tr_amount :: string
  tr_recipient :: string
  tr_description :: string

definition fetchData :: "user_id option \<Rightarrow> db \<Rightarrow> treat_screen \<Rightarrow> treat_screen" where
  "fetchData user d s =
     (case user of
        None \<Rightarrow> s
      | Some uid \<Rightarrow>
          let walletData = maybeSingle (filter (\<lambda>w. tw_user_id w = uid) (treat_wallet d));
              s1 = (if walletData \<noteq> None then s\<lparr>wallet := walletData\<rparr> else s);
              transactionsData =
                take 20
                  (sort_key (\<lambda>t. - transaction_date t)
                     (filter (\<lambda>t. t_user_id t = uid \<and> transaction_type t = ''treat'')
                        (transactions d)))
          in s1\<lparr>tr_transactions := transactionsData\<rparr>)"

text \<open>
  \<open>handleSpend\<close>: a missing user or wallet, or an empty amount or recipient, returns at
  once, and so does an amount above the balance of the wallet. Otherwise a transaction
  of the type \<open>treat\<close> is inserted (its date is the clock of the store), the wallet of
  the user is updated from the wallet of the screen, the form is cleared and the data
  fetched again.
\<close>

definition handleSpend :: "user_id option \<Rightarrow> int \<Rightarrow> treat_screen \<times> db \<Rightarrow> treat_screen \<times> db" where
  "handleSpend user now sd =
     (let (s, d) = sd in
      case (user, wallet s) of
        (Some uid, Some w) \<Rightarrow>
          if tr_amount s = [] \<or> tr_recipient s = [] then (s, d)
          else
            let amountInCents = toCents (tr_amount s) in
            if jgt amountInCents (current_balance w) then (s, d)
            else
              let d1 = d\<lparr>transactions := transactions d @
                          [\<lparr>t_id = next_id d, t_user_id = uid, transaction_type = ''treat'',
                            amount = amountInCents, merchant = tr_recipient s,
                            description = tr_description s, transaction_date = now,
                            is_impulse = False\<rparr>],
                        next_id := Suc (next_id d)\<rparr>;
                  d2 = d1\<lparr>treat_wallet :=
                          map (\<lambda>r. if tw_user_id r = uid
                                    then r\<lparr>current_balance := jsub (current_balance w) amountInCents,
                                           total_spent_this_month :=
                                             jadd (total_spent_this_month w) amountInCents\<rparr>
                                    else r)
                            (treat_wallet d1)\<rparr>;
                  s' = s\<lparr>tr_modalVisible := False, tr_amount := [], tr_recipient := [],
                         tr_description := []\<rparr>
              in (fetchData user d2 s', d2)
      | _ \<Rightarrow> (s, d))"

text \<open>
  The screen of the user \<open>u\<close> over the sample store, the wallet fetched and the form
  filled in with an amount.
\<close>

definition sample_treat_screen :: "string \<Rightarrow> treat_screen" where
  "sample_treat_screen text =
     \<lparr>wallet = Some (hd (treat_wallet sample_db)), tr_transactions = [], tr_modalVisible = True,
      tr_amount = text, tr_recipient = ''Ann'', tr_description = ''Lunch''\<rparr>"

text \<open>The budget left in the month, which the screen computes.\<close>

definition remainingBudget :: "treat_wallet_row option \<Rightarrow> jsnum" where
  "remainingBudget w =
     (case w of Some w' \<Rightarrow> jsub (monthly_budget w') (total_spent_this_month w') | None \<Rightarrow> Fin 0)"

definition isBalanceEmpty :: "treat_wallet_row option \<Rightarrow> bool" where
  "isBalanceEmpty w = (case w of Some w' \<Rightarrow> jle (current_balance w') (Fin 0) | None \<Rightarrow> False)"

section \<open>Monthly report\<close>







section \<open>Settings\<close>

record settings_screen =
  profile :: "profile_row option"
  st_monthlyIncome :: string
  impulseBlocker :: bool
  showBalance :: bool

text \<open>
  \<open>fetchProfile\<close> fills the income field with \<open>(monthly_income / 100).toFixed(2)\<close>. The
  result is \<open>None\<close> when the text is outside the model (see \<open>toFixed2\<close>).
\<close>

definition fetchProfile :: "user_id option \<Rightarrow> db \<Rightarrow> settings_screen \<Rightarrow> settings_screen option" where
  "fetchProfile user d s =
     (case user of
        None \<Rightarrow> Some s
      | Some uid \<Rightarrow>
          (case maybeSingle (filter (\<lambda>p. p_user_id p = uid) (profiles d)) of
             None \<Rightarrow> Some s
           | Some p \<Rightarrow>
               map_option
                 (\<lambda>text. s\<lparr>profile := Some p, st_monthlyIncome := text,
                           impulseBlocker := impulse_blocker_enabled p,
                           showBalance := show_total_balance p\<rparr>)
                 (toFixed2 (jdiv (monthly_income p) (Fin 100)))))"

definition handleSave :: "user_id option \<Rightarrow> settings_screen \<times> db \<Rightarrow> (settings_screen \<times> db) option" where
  "handleSave user sd =
     (let (s, d) = sd in
      case user of
        None \<Rightarrow> Some (s, d)
      | Some uid \<Rightarrow>
          let incomeInCents = toCents (st_monthlyIncome s);
              d' = d\<lparr>profiles :=
                      map (\<lambda>p. if p_user_id p = uid
                                then p\<lparr>monthly_income := incomeInCents,
                                       impulse_blocker_enabled := impulseBlocker s,
                                       show_total_balance := showBalance s\<rparr>
                                else p)
                        (profiles d)\<rparr>
          in map_option (\<lambda>s'. (s', d')) (fetchProfile user d' s))"

section \<open>Integers as numbers\<close>

text \<open>
  \<open>num n\<close> is the number that holds the integer \<open>n\<close>, and \<open>int4 n\<close> says that \<open>n\<close> fits
  the \<open>integer\<close> columns of the schema, in which the amounts are kept as cents.
\<close>

definition num :: "int \<Rightarrow> jsnum" where
  "num n = Fin (of_int n)"

definition int4 :: "int \<Rightarrow> bool" where
  "int4 n = (- (2 ^ 31) \<le> n \<and> n < 2 ^ 31)"

text \<open>
  \<open>is_int4 x\<close>: the number \<open>x\<close> holds an integer of the \<open>integer\<close> columns, which
  \<open>cents_of x\<close> reads.
\<close>

definition is_int4 :: "jsnum \<Rightarrow> bool" where
  "is_int4 x = (case x of Fin q \<Rightarrow> q = of_int \<lfloor>q\<rfloor> \<and> int4 \<lfloor>q\<rfloor> | _ \<Rightarrow> False)"

definition cents_of :: "jsnum \<Rightarrow> int" where
  "cents_of x = (case x of Fin q \<Rightarrow> \<lfloor>q\<rfloor> | _ \<Rightarrow> 0)"



section \<open>Properties of the numbers\<close>

lemma jneg_jneg: "jneg (jneg x) = x"
  by (cases x) simp_all

text \<open>Powers of two, and the binary exponent.\<close>

lemma pow2_less_iff: "(2::rat) powi m < 2 powi n \<longleftrightarrow> m < n"
proof
  assume "(2::rat) powi m < 2 powi n"
  show "m < n"
  proof (rule ccontr)
    assume "\<not> m < n"
    then have "(2::rat) powi n \<le> 2 powi m" by (intro power_int_increasing) auto
    with \<open>(2::rat) powi m < 2 powi n\<close> show False by simp
  qed
next
  assume "m < n"
  then show "(2::rat) powi m < 2 powi n" by (intro power_int_strict_increasing) auto
qed

lemma pow2_le_iff: "(2::rat) powi m \<le> 2 powi n \<longleftrightarrow> m \<le> n"
  using pow2_less_iff[of n m] by (auto simp: not_less[symmetric])

lemma bitlen_rat_bounds:
  assumes "0 < a"
  shows "(2::rat) powi (bitlen a - 1) \<le> of_int a" "of_int a < (2::rat) powi bitlen a" "1 \<le> bitlen a"
proof -
  show l1: "1 \<le> bitlen a"
    using assms bitlen_eq_zero_iff[of a] bitlen_nonneg[of a] by linarith
  have "(2::int) ^ nat (bitlen a - 1) \<le> a \<and> a < 2 ^ nat (bitlen a)"
    using bitlen_bounds[OF assms] by simp
  then have "(of_int (2 ^ nat (bitlen a - 1)) :: rat) \<le> of_int a" "(of_int a :: rat) < of_int (2 ^ nat (bitlen a))"
    by (simp_all only: of_int_le_iff of_int_less_iff)
  then show "(2::rat) powi (bitlen a - 1) \<le> of_int a" "of_int a < (2::rat) powi bitlen a"
    using l1 by (simp_all add: power_int_def)
qed

lemma ilog2_bounds:
  assumes "0 < q"
  shows "2 powi (ilog2 q) \<le> q \<and> q < 2 powi (ilog2 q + 1)"
proof -
  obtain a b where ab: "quotient_of q = (a, b)" by (cases "quotient_of q")
  then have b: "0 < b" and q: "q = of_int a / of_int b"
    using quotient_of_denom_pos quotient_of_div by auto
  have a: "0 < a" using assms b q by (simp add: zero_less_divide_iff)
  define la where "la = bitlen a"
  define lb where "lb = bitlen b"
  note A = bitlen_rat_bounds[OF a, folded la_def]
  note B = bitlen_rat_bounds[OF b, folded lb_def]
  have pos: "\<And>k. (0::rat) < 2 powi k" by simp
  have "q < 2 powi la / 2 powi (lb - 1)"
    unfolding q using A B a b pos by (intro frac_less) simp_all
  also have "\<dots> = 2 powi (la - lb + 1)"
    by (simp add: power_int_diff power_int_add)
  finally have up: "q < 2 powi (la - lb + 1)" .
  have "2 powi (la - 1) / 2 powi lb < q"
    unfolding q using A B a b pos by (intro frac_less2) simp_all
  moreover have "(2::rat) powi (la - 1) / 2 powi lb = 2 powi (la - lb - 1)"
    by (simp add: power_int_diff)
  ultimately have lo: "2 powi (la - lb - 1) < q" by simp
  show ?thesis
    using up lo ab unfolding ilog2_def la_def lb_def
    by (auto simp: Let_def)
qed

lemma ilog2_unique:
  assumes "0 < q" "2 powi e \<le> q" "q < 2 powi (e + 1)"
  shows "ilog2 q = e"
proof -
  let ?i = "ilog2 q"
  have b: "2 powi ?i \<le> q" "q < 2 powi (?i + 1)" using ilog2_bounds[OF assms(1)] by auto
  have "(2::rat) powi e < 2 powi (?i + 1)" using assms(2) b(2) by linarith
  then have "e < ?i + 1" by (simp only: pow2_less_iff)
  moreover have "(2::rat) powi ?i < 2 powi (e + 1)" using assms(3) b(1) by linarith
  then have "?i < e + 1" by (simp only: pow2_less_iff)
  ultimately show ?thesis by linarith
qed

lemma rne_of_int: "rne (of_int z) = z"
  by (simp add: rne_def)



lemma fl_exact:
  assumes q0: "q \<noteq> 0" and lo: "- 1022 \<le> ilog2 \<bar>q\<bar>" and hi: "ilog2 \<bar>q\<bar> < 1023"
    and int: "\<bar>q\<bar> / 2 powi (ilog2 \<bar>q\<bar> - 52) = of_int m"
  shows "fl q = Fin q"
proof -
  have "sgn q * (of_int m * 2 powi (ilog2 \<bar>q\<bar> - 52)) = sgn q * \<bar>q\<bar>"
    using int[symmetric] by simp
  also have "\<dots> = q" by (simp add: sgn_if abs_if)
  finally show ?thesis
    using q0 lo hi int unfolding fl_def Let_def max_def
    by (simp add: rne_of_int)
qed

lemma fl_of_int:
  assumes "\<bar>n\<bar> \<le> 2 ^ 53"
  shows "fl (of_int n) = Fin (of_int n)"
proof (cases "n = 0")
  case True
  then show ?thesis by (simp add: fl_def)
next
  case False
  define q :: rat where "q = of_int n"
  have aq: "\<bar>q\<bar> = of_int \<bar>n\<bar>" by (simp add: q_def)
  have pos: "0 < \<bar>q\<bar>" using False by (simp add: q_def)
  define e where "e = ilog2 \<bar>q\<bar>"
  have eb: "2 powi e \<le> \<bar>q\<bar>" "\<bar>q\<bar> < 2 powi (e + 1)"
    using ilog2_bounds[OF pos] by (auto simp: e_def)
  have "1 \<le> \<bar>n\<bar>" using False by simp
  then have "(1::rat) \<le> \<bar>q\<bar>" unfolding aq by (simp only: of_int_1_le_iff)
  then have "(2::rat) powi 0 < 2 powi (e + 1)" using eb(2) by simp
  then have e0: "0 \<le> e" by (simp only: pow2_less_iff)
  have "\<bar>q\<bar> \<le> 2 ^ 53" unfolding aq using assms by (metis of_int_le_iff of_int_numeral of_int_power)
  then have "(2::rat) powi e \<le> 2 powi 53" using eb(1) by simp
  then have e53: "e \<le> 53" by (simp only: pow2_le_iff)
  have "\<exists>m. \<bar>q\<bar> / 2 powi (e - 52) = of_int m"
  proof (cases "e = 53")
    case True
    then have "\<bar>q\<bar> = 2 ^ 53" using eb(1) \<open>\<bar>q\<bar> \<le> 2 ^ 53\<close> by simp
    then have "\<bar>q\<bar> / 2 powi (e - 52) = of_int (2 ^ 52)" using True by simp
    then show ?thesis by blast
  next
    case False
    then have "0 \<le> 52 - e" using e53 by simp
    have "\<bar>q\<bar> / 2 powi (e - 52) = \<bar>q\<bar> * 2 powi (52 - e)"
      by (simp add: power_int_diff)
    also have "\<dots> = of_int \<bar>n\<bar> * 2 ^ nat (52 - e)"
      using \<open>0 \<le> 52 - e\<close> by (simp add: aq power_int_def)
    also have "\<dots> = of_int (\<bar>n\<bar> * 2 ^ nat (52 - e))" by simp
    finally show ?thesis by blast
  qed
  then obtain m where m: "\<bar>q\<bar> / 2 powi (ilog2 \<bar>q\<bar> - 52) = of_int m" unfolding e_def by blast
  have "fl q = Fin q"
    by (rule fl_exact[OF _ _ _ m]) (use pos e0 e53 in \<open>auto simp: e_def\<close>)
  then show ?thesis by (simp add: q_def)
qed




lemma jadd_num: "\<bar>a + b\<bar> \<le> 2 ^ 53 \<Longrightarrow> jadd (num a) (num b) = num (a + b)"
  using fl_of_int[of "a + b"] by (simp add: num_def)


lemma foldl_jadd_num:
  "\<bar>a\<bar> + sum_list (map abs xs) \<le> 2 ^ 53
     \<Longrightarrow> foldl (\<lambda>s x. jadd s (num x)) (num a) xs = num (a + sum_list xs)"
proof (induction xs arbitrary: a)
  case Nil
  then show ?case by simp
next
  case (Cons x xs)
  have "\<bar>a + x\<bar> \<le> 2 ^ 53" using Cons.prems sum_list_abs[of xs] by simp
  moreover have "\<bar>a + x\<bar> + sum_list (map abs xs) \<le> 2 ^ 53" using Cons.prems by simp
  ultimately show ?case using Cons.IH[of "a + x"] by (simp add: jadd_num add.assoc)
qed


section \<open>Onboarding: the categories\<close>


section \<open>Onboarding: editing a percentage\<close>





lemma foldl_jadd_map_num:
  "foldl jadd a (map num ps) = foldl (\<lambda>s x. jadd s (num x)) a ps"
  by (induction ps arbitrary: a) simp_all







section \<open>Onboarding: completing the setup\<close>


lemma sum_abs_bound:
  "list_all (\<lambda>p. \<bar>p\<bar> \<le> (b::int)) ps \<Longrightarrow> sum_list (map abs ps) \<le> b * int (length ps)"
  by (induction ps) (auto simp: algebra_simps)





text \<open>
  Every income split that \<open>handleComplete\<close> inserts is inserted without a
  \<open>category_id\<close>: in the branch that inserts, \<open>existingCategory\<close> is \<open>null\<close>.
\<close>

lemma complete_category_splits:
  "\<exists>k. map category_id (income_splits (complete_category uid d c))
         = map category_id (income_splits d) @ replicate k None"
proof (cases "maybeSingle (filter (\<lambda>r. bc_user_id r = uid \<and> category_type r = cat_type c)
                            (budget_categories d)) = None")
  case True
  then show ?thesis
    by (intro exI[of _ 1]) (simp add: complete_category_def Let_def)
next
  case False
  then show ?thesis
    by (intro exI[of _ 0]) (simp add: complete_category_def Let_def)
qed

lemma foldl_complete_category_splits:
  "\<exists>k. map category_id (income_splits (foldl (complete_category uid) d cs))
         = map category_id (income_splits d) @ replicate k None"
proof (induction cs arbitrary: d)
  case Nil
  then show ?case by (intro exI[of _ 0]) simp
next
  case (Cons c cs)
  obtain k where k: "map category_id (income_splits (complete_category uid d c))
                       = map category_id (income_splits d) @ replicate k None"
    using complete_category_splits by blast
  obtain j where "map category_id (income_splits (foldl (complete_category uid) (complete_category uid d c) cs))
                    = map category_id (income_splits (complete_category uid d c)) @ replicate j None"
    using Cons.IH by blast
  then show ?case
    using k by (intro exI[of _ "k + j"]) (simp add: replicate_add)
qed

lemma handleComplete_splits_unlinked:
  "\<exists>k. map category_id (income_splits (handleComplete user monthlyIncome categories d))
         = map category_id (income_splits d) @ replicate k None"
proof (cases user)
  case None
  then show ?thesis by (intro exI[of _ 0]) (simp add: handleComplete_def)
next
  case (Some uid)
  let ?d0 = "d\<lparr>profiles :=
               map (\<lambda>p. if p_user_id p = uid
                         then p\<lparr>monthly_income := toCents monthlyIncome, onboarding_completed := True\<rparr>
                         else p)
                 (profiles d)\<rparr>"
  obtain k where "map category_id (income_splits (foldl (complete_category uid) ?d0 categories))
                    = map category_id (income_splits ?d0) @ replicate k None"
    using foldl_complete_category_splits by blast
  then show ?thesis
    using Some by (intro exI[of _ k]) (simp add: handleComplete_def Let_def)
qed

text \<open>
  C3. For a user without categories, \<open>handleComplete\<close> inserts the five budget categories
  with the chosen percentages and the balance 0, and five income splits with the same
  percentages, but no split refers to its category: each is sent without
  \<open>category_id\<close>, which the schema requires.
\<close>

theorem handleComplete_income_splits_unlinked:
  "(let d' = handleComplete (Some ''u'') ''5000'' DEFAULT_CATEGORIES empty_db
    in map bc_id (budget_categories d') = [0, 1, 2, 3, 4]
       \<and> map category_type (budget_categories d') = [''bills'', ''goals'', ''daily'', ''freedom'', ''emergency'']
       \<and> map allocation_percentage (budget_categories d') = [Fin 30, Fin 20, Fin 25, Fin 20, Fin 5]
       \<and> map bc_current_balance (budget_categories d') = [Fin 0, Fin 0, Fin 0, Fin 0, Fin 0]
       \<and> map split_percentage (income_splits d') = [Fin 30, Fin 20, Fin 25, Fin 20, Fin 5]
       \<and> map category_id (income_splits d') = [None, None, None, None, None]
       \<and> list_all (\<lambda>r. \<not> income_split_not_null r) (income_splits d'))"
  by code_simp

section \<open>Transactions: the list and its summaries\<close>

lemma is_int4_iff: "is_int4 x \<longleftrightarrow> (\<exists>n. x = num n \<and> int4 n)"
proof
  assume "is_int4 x"
  then obtain q where "x = Fin q" "q = of_int \<lfloor>q\<rfloor>" "int4 \<lfloor>q\<rfloor>"
    by (auto simp: is_int4_def split: jsnum.splits)
  then show "\<exists>n. x = num n \<and> int4 n" by (intro exI[of _ "\<lfloor>q\<rfloor>"]) (simp add: num_def)
next
  assume "\<exists>n. x = num n \<and> int4 n"
  then show "is_int4 x" by (auto simp: is_int4_def num_def)
qed

lemma cents_of_num: "cents_of (num n) = n"
  by (simp add: cents_of_def num_def)

lemma is_int4_num_cents: "is_int4 x \<Longrightarrow> x = num (cents_of x) \<and> \<bar>cents_of x\<bar> \<le> 2 ^ 31"
  by (auto simp: is_int4_iff cents_of_num int4_def)

lemma foldl_amount_exact:
  assumes "list_all (\<lambda>t. is_int4 (amount t)) rows" "length rows \<le> 2 ^ 21"
  shows "foldl (\<lambda>sum t. jadd sum (amount t)) (Fin 0) rows
           = num (sum_list (map (\<lambda>t. cents_of (amount t)) rows))"
proof -
  let ?ps = "map (\<lambda>t. cents_of (amount t)) rows"
  have am: "map amount rows = map num ?ps"
    using assms(1) by (induction rows) (auto dest: is_int4_num_cents)
  have "list_all (\<lambda>p. \<bar>p\<bar> \<le> 2 ^ 31) ?ps"
    using assms(1) by (induction rows) (auto dest: is_int4_num_cents)
  then have "sum_list (map abs ?ps) \<le> 2 ^ 31 * int (length ?ps)" by (rule sum_abs_bound)
  also have "\<dots> \<le> 2 ^ 31 * 2 ^ 21"
    using assms(2) by (intro mult_left_mono) (simp_all add: of_nat_le_iff[of _ "2 ^ 21", where ?'a = int, simplified])
  finally have "\<bar>0::int\<bar> + sum_list (map abs ?ps) \<le> 2 ^ 53" by simp
  from foldl_jadd_num[OF this]
  have "foldl jadd (Fin 0) (map num ?ps) = num (sum_list ?ps)"
    unfolding foldl_jadd_map_num by (simp add: num_def)
  moreover have "foldl (\<lambda>sum t. jadd sum (amount t)) (Fin 0) rows = foldl jadd (Fin 0) (map amount rows)"
    by (simp add: foldl_map)
  ultimately show ?thesis by (simp add: am)
qed

lemma total_of_type_exact:
  assumes "list_all (\<lambda>t. is_int4 (amount t)) txs" "length txs \<le> 2 ^ 21"
  shows "total_of_type ty txs
           = num (sum_list (map (\<lambda>t. cents_of (amount t)) (filter (\<lambda>t. transaction_type t = ty) txs)))"
  unfolding total_of_type_def
proof (rule foldl_amount_exact)
  show "list_all (\<lambda>t. is_int4 (amount t)) (filter (\<lambda>t. transaction_type t = ty) txs)"
    using assms(1) by (auto simp: list_all_iff)
  show "length (filter (\<lambda>t. transaction_type t = ty) txs) \<le> 2 ^ 21"
    using assms(2) length_filter_le[of "\<lambda>t. transaction_type t = ty" txs] by linarith
qed

lemma sorted_neg_desc:
  "sorted (map (\<lambda>t. - f t) xs) \<Longrightarrow> sorted_wrt (\<lambda>a b. (f b :: int) \<le> f a) xs"
  by (induction xs) auto


text \<open>
  C7. For a signed-in user and a store whose amounts are integers of the \<open>integer\<close>
  columns, the list that \<open>fetchTransactions\<close> gives has at most 50 entries, is ordered
  by \<open>transaction_date\<close> descending, holds transactions of the store and of the user
  only and, when the filter is \<open>income\<close> or \<open>expense\<close>, of that type only; the Income
  summary is the sum of the amounts of its entries of the type \<open>income\<close> and the Expenses
  summary the sum of the amounts of its entries of the type \<open>expense\<close>.
\<close>

theorem fetchTransactions_summary:
  assumes "user = Some uid"
    and "list_all (\<lambda>t. is_int4 (amount t)) (transactions d)"
  shows "(let txs = fetchTransactions user flt d old
          in length txs \<le> 50
             \<and> sorted_wrt (\<lambda>a b. transaction_date b \<le> transaction_date a) txs
             \<and> list_all (\<lambda>t. t \<in> set (transactions d) \<and> t_user_id t = uid) txs
             \<and> (flt = All \<or> list_all (\<lambda>t. transaction_type t = filter_name flt) txs)
             \<and> totalIncome txs
                 = num (sum_list (map (\<lambda>t. cents_of (amount t))
                                    (filter (\<lambda>t. transaction_type t = ''income'') txs)))
             \<and> totalExpenses txs
                 = num (sum_list (map (\<lambda>t. cents_of (amount t))
                                    (filter (\<lambda>t. transaction_type t = ''expense'') txs))))"
proof -
  let ?P = "\<lambda>t. t_user_id t = uid \<and> (flt = All \<or> transaction_type t = filter_name flt)"
  let ?srt = "sort_key (\<lambda>t. - transaction_date t) (filter ?P (transactions d))"
  let ?txs = "take 50 ?srt"
  have eq: "fetchTransactions user flt d old = ?txs"
    using assms(1) by (simp add: fetchTransactions_def)
  have len: "length ?txs \<le> 50" by simp
  have "sorted (map (\<lambda>t. - transaction_date t) ?srt)" by simp
  then have "sorted_wrt (\<lambda>a b. transaction_date b \<le> transaction_date a) ?srt"
    by (rule sorted_neg_desc)
  then have srt: "sorted_wrt (\<lambda>a b. transaction_date b \<le> transaction_date a) ?txs"
    by (rule sorted_wrt_take)
  have sub: "set ?txs \<subseteq> {t \<in> set (transactions d). ?P t}"
    using set_take_subset[of 50 ?srt] by auto
  have mem: "list_all (\<lambda>t. t \<in> set (transactions d) \<and> t_user_id t = uid) ?txs"
    using sub by (auto simp: list_all_iff)
  have ty: "flt = All \<or> list_all (\<lambda>t. transaction_type t = filter_name flt) ?txs"
    using sub by (auto simp: list_all_iff)
  have ok: "list_all (\<lambda>t. is_int4 (amount t)) ?txs"
    using sub assms(2) by (auto simp: list_all_iff)
  have l21: "length ?txs \<le> 2 ^ 21" using len by simp
  note tot = total_of_type_exact[OF ok l21]
  show ?thesis
    unfolding eq Let_def totalIncome_def totalExpenses_def
    using len srt mem ty tot by blast
qed

theorem fetchTransactions_summary_witness:
  "Some ''u'' = Some ''u''
   \<and> list_all (\<lambda>t. is_int4 (amount t)) (transactions sample_db)
   \<and> map t_id (fetchTransactions (Some ''u'') Expense sample_db []) = [2, 1]
   \<and> totalIncome (fetchTransactions (Some ''u'') Expense sample_db []) = num 0
   \<and> totalExpenses (fetchTransactions (Some ''u'') Expense sample_db []) = num 71500"
proof -
  have h: "list_all (\<lambda>t. is_int4 (amount t)) (transactions sample_db)"
    by code_simp
  have f: "fetchTransactions (Some ''u'') Expense sample_db []
             = [transactions sample_db ! 2, transactions sample_db ! 1]"
    by code_simp
  have c: "map (\<lambda>t. cents_of (amount t)) [transactions sample_db ! 2, transactions sample_db ! 1]
             = [12500, 59000]"
    by code_simp
  have i: "map t_id [transactions sample_db ! 2, transactions sample_db ! 1] = [2, 1]"
    "map transaction_type [transactions sample_db ! 2, transactions sample_db ! 1]
       = [''expense'', ''expense'']"
    by code_simp+
  from fetchTransactions_summary[where user = "Some ''u''" and uid = "''u''" and d = sample_db
      and flt = Expense and old = "[]", OF refl h]
  show ?thesis
    unfolding f Let_def using h c i by simp
qed

section \<open>Treat wallet: spending\<close>





text \<open>
  C1, as the code has it. On a screen with a user, a fetched wallet and an amount and a
  recipient filled in, a spend of \<open>a\<close> cents is gated by the balance of the wallet, not
  by the budget left in the month: above \<open>current_balance\<close> the handler returns and leaves
  the screen and the store as they are (the transactions and the wallet among them);
  otherwise it records a transaction of the type \<open>treat\<close> and the amount \<open>a\<close>.
\<close>

theorem handleSpend_balance_gate:
  assumes "user = Some uid" and "wallet s = Some w"
    and "tr_amount s \<noteq> []" and "tr_recipient s \<noteq> []"
    and "toCents (tr_amount s) = num a"
  shows "(if jgt (num a) (current_balance w)
          then handleSpend user now (s, d) = (s, d)
          else transactions (snd (handleSpend user now (s, d)))
                 = transactions d @
                   [\<lparr>t_id = next_id d, t_user_id = uid, transaction_type = ''treat'',
                     amount = num a, merchant = tr_recipient s, description = tr_description s,
                     transaction_date = now, is_impulse = False\<rparr>])"
  using assms by (simp add: handleSpend_def Let_def)

theorem handleSpend_balance_gate_witness:
  "Some ''u'' = Some ''u''
   \<and> wallet (sample_treat_screen ''120'') = Some (hd (treat_wallet sample_db))
   \<and> tr_amount (sample_treat_screen ''120'') \<noteq> []
   \<and> tr_recipient (sample_treat_screen ''120'') \<noteq> []
   \<and> toCents (tr_amount (sample_treat_screen ''120'')) = num 12000
   \<and> jgt (num 12000) (current_balance (hd (treat_wallet sample_db)))
   \<and> handleSpend (Some ''u'') 50 (sample_treat_screen ''120'', sample_db)
       = (sample_treat_screen ''120'', sample_db)"
proof -
  have w: "wallet (sample_treat_screen ''120'') = Some (hd (treat_wallet sample_db))"
    by (simp add: sample_treat_screen_def)
  have a: "tr_amount (sample_treat_screen ''120'') \<noteq> []"
    and r: "tr_recipient (sample_treat_screen ''120'') \<noteq> []"
    by (simp_all add: sample_treat_screen_def)
  have c: "toCents (tr_amount (sample_treat_screen ''120'')) = num 12000"
    unfolding num_def by code_simp
  have g: "jgt (num 12000) (current_balance (hd (treat_wallet sample_db)))"
    by (simp add: sample_db_def jgt_def num_def)
  from handleSpend_balance_gate[OF refl w a r c, where now = 50 and d = sample_db]
  show ?thesis using w a r c g by simp
qed


text \<open>
  C1, as stated, fails: with a balance of 100.00, a monthly budget of 50.00 and nothing
  spent, a treat of 80.00 exceeds the budget left in the month (50.00) and is recorded
  all the same.
\<close>

theorem treat_spend_over_budget_counterexample:
  "remainingBudget (wallet (sample_treat_screen ''80'')) = Fin 5000
   \<and> toCents (tr_amount (sample_treat_screen ''80'')) = Fin 8000
   \<and> jgt (toCents (tr_amount (sample_treat_screen ''80'')))
          (remainingBudget (wallet (sample_treat_screen ''80'')))
   \<and> map amount (transactions (snd (handleSpend (Some ''u'') 50 (sample_treat_screen ''80'', sample_db))))
       = map amount (transactions sample_db) @ [Fin 8000]
   \<and> map transaction_type
         (transactions (snd (handleSpend (Some ''u'') 50 (sample_treat_screen ''80'', sample_db))))
       = map transaction_type (transactions sample_db) @ [''treat'']
   \<and> map total_spent_this_month
         (treat_wallet (snd (handleSpend (Some ''u'') 50 (sample_treat_screen ''80'', sample_db))))
       = [Fin 8000]"
  by code_simp




section \<open>Locked savings: the unlock gate\<close>

lemma fetchSavings_subset:
  "user = Some uid \<Longrightarrow> set (savings (fetchSavings user d s)) \<subseteq> set (locked_savings d)"
  by (auto simp: fetchSavings_def)

lemma fetchSavings_None: "fetchSavings None d s = s"
  by (simp add: fetchSavings_def)

lemma cache_of_subset:
  assumes "set (savings s) \<subseteq> set rows"
  shows "list_all (\<lambda>c. list_ex (\<lambda>r. ls_id r = ls_id c \<and> unlock_date r = unlock_date c) rows)
           (savings s)"
  using assms by (auto simp: list_all_iff list_ex_iff)

lemma consistent_fetch:
  assumes "locked_consistent s d"
  shows "locked_consistent (fetchSavings user d s) d"
proof (cases user)
  case None
  then show ?thesis using assms by (simp add: fetchSavings_None)
next
  case (Some uid)
  from fetchSavings_subset[OF this, of d s] cache_of_subset[of "fetchSavings user d s" "locked_savings d"]
  show ?thesis using assms by (simp add: locked_consistent_def)
qed

lemma consistent_screen_fields:
  "savings s' = savings s \<Longrightarrow> locked_consistent s d \<Longrightarrow> locked_consistent s' d"
  by (simp add: locked_consistent_def)

lemma lock_cases:
  assumes "handleLockSavings user parseDate now (s, d) = Inr (s', d')"
  shows "(s' = s \<and> d' = d)
         \<or> (\<exists>uid t. user = Some uid \<and> parseDate (lk_unlockDate s) = Some t
               \<and> d' = d\<lparr>locked_savings := locked_savings d @
                            [\<lparr>ls_id = next_id d, ls_user_id = uid, ls_amount = toCents (lk_amount s),
                              lock_reason = lk_reason s, locked_at = now,
                              unlock_date = t, status = ''active''\<rparr>],
                          next_id := Suc (next_id d)\<rparr>
               \<and> s' = fetchSavings user d'
                         (s\<lparr>lk_modalVisible := False, lk_amount := [], lk_reason := [],
                            lk_unlockDate := []\<rparr>))"
  using assms
  by (auto simp: handleLockSavings_def Let_def split: option.splits if_splits)

lemma inv_lock:
  assumes "handleLockSavings user parseDate now (s, d) = Inr (s', d')"
    and "locked_consistent s d" and "no_early_unlock now d"
  shows "locked_consistent s' d' \<and> no_early_unlock now d'"
  using lock_cases[OF assms(1)]
proof (elim disjE exE conjE)
  assume "s' = s" "d' = d"
  then show ?thesis using assms by simp
next
  fix uid t
  assume u: "user = Some uid"
    and d': "d' = d\<lparr>locked_savings := locked_savings d @
                            [\<lparr>ls_id = next_id d, ls_user_id = uid, ls_amount = toCents (lk_amount s),
                              lock_reason = lk_reason s, locked_at = now,
                              unlock_date = t, status = ''active''\<rparr>],
                          next_id := Suc (next_id d)\<rparr>"
    and s': "s' = fetchSavings user d'
                         (s\<lparr>lk_modalVisible := False, lk_amount := [], lk_reason := [],
                            lk_unlockDate := []\<rparr>)"
  have ids: "list_all (\<lambda>r. ls_id r < next_id d') (locked_savings d')"
    using assms(2) unfolding d' by (auto simp: locked_consistent_def list_all_iff less_Suc_eq)
  have dis: "distinct (map ls_id (locked_savings d'))"
    using assms(2) unfolding d' by (auto simp: locked_consistent_def list_all_iff)
  have cache: "list_all (\<lambda>c. list_ex (\<lambda>r. ls_id r = ls_id c \<and> unlock_date r = unlock_date c)
                             (locked_savings d')) (savings s')"
    unfolding s' by (rule cache_of_subset) (rule fetchSavings_subset[OF u])
  have early: "no_early_unlock now d'"
    using assms(3) unfolding d' by (simp add: no_early_unlock_def)
  show ?thesis using ids dis cache early by (simp add: locked_consistent_def)
qed

lemma inv_unlock:
  assumes off: "unlock_offered now s r"
    and h: "handleUnlock user (ls_id r) (s, d) = (s', d')"
    and con: "locked_consistent s d" and early: "no_early_unlock now d"
  shows "locked_consistent s' d' \<and> no_early_unlock now d'"
proof -
  let ?f = "\<lambda>x. if ls_id x = ls_id r then x\<lparr>status := ''unlocked''\<rparr> else x"
  have d': "d' = d\<lparr>locked_savings := map ?f (locked_savings d)\<rparr>"
    and s': "s' = fetchSavings user d' s"
    using h by (auto simp: handleUnlock_def Let_def)
  have r_in: "r \<in> set (savings s)" and r_date: "unlock_date r \<le> now"
    using off by (auto simp: unlock_offered_def activeSavings_def isUnlockable_def)
  have "ls_id \<circ> ?f = ls_id" by (auto simp: fun_eq_iff)
  then have ids_eq: "map ls_id (map ?f (locked_savings d)) = map ls_id (locked_savings d)"
    by simp
  have keep: "ls_id (?f x) = ls_id x \<and> unlock_date (?f x) = unlock_date x" for x by simp
  have c0: "locked_consistent s d'"
  proof -
    have "list_all (\<lambda>x. ls_id x < next_id d') (locked_savings d')"
      using con unfolding d' by (auto simp: locked_consistent_def list_all_iff)
    moreover have "locked_savings d' = map ?f (locked_savings d)" unfolding d' by simp
    then have "distinct (map ls_id (locked_savings d'))"
      using con ids_eq by (simp only: locked_consistent_def)
    moreover have "list_all (\<lambda>c. list_ex (\<lambda>x. ls_id x = ls_id c \<and> unlock_date x = unlock_date c)
                               (locked_savings d')) (savings s)"
      unfolding list_all_iff list_ex_iff
    proof
      fix c assume "c \<in> set (savings s)"
      then obtain x where x: "x \<in> set (locked_savings d)" "ls_id x = ls_id c" "unlock_date x = unlock_date c"
        using con by (auto simp: locked_consistent_def list_all_iff list_ex_iff)
      then have m: "?f x \<in> set (locked_savings d')" unfolding d' by simp
      have "ls_id (?f x) = ls_id c \<and> unlock_date (?f x) = unlock_date c"
        using x(2,3) by simp
      then show "\<exists>y\<in>set (locked_savings d'). ls_id y = ls_id c \<and> unlock_date y = unlock_date c"
        using m by (rule_tac x = "?f x" in bexI)
    qed
    ultimately show ?thesis by (simp add: locked_consistent_def)
  qed
  have c1: "locked_consistent s' d'" unfolding s' by (rule consistent_fetch[OF c0])
  obtain r0 where r0: "r0 \<in> set (locked_savings d)" "ls_id r0 = ls_id r" "unlock_date r0 = unlock_date r"
    using con r_in by (auto simp: locked_consistent_def list_all_iff list_ex_iff)
  have inj: "inj_on ls_id (set (locked_savings d))"
    using con by (simp add: locked_consistent_def distinct_map)
  have uniq: "x = r0" if "x \<in> set (locked_savings d)" "ls_id x = ls_id r" for x
    using inj_onD[OF inj _ that(1) r0(1)] that(2) r0(2) by simp
  have "no_early_unlock now d'"
    unfolding no_early_unlock_def d' list_all_iff
  proof
    fix y assume "y \<in> set (locked_savings (d\<lparr>locked_savings := map ?f (locked_savings d)\<rparr>))"
    then obtain x where x: "x \<in> set (locked_savings d)" "y = ?f x" by auto
    show "status y = ''unlocked'' \<longrightarrow> unlock_date y \<le> now"
    proof (cases "ls_id x = ls_id r")
      case True
      then have "x = r0" using uniq x(1) by simp
      then show ?thesis using x(2) True r0 r_date by simp
    next
      case False
      then show ?thesis using x early by (auto simp: no_early_unlock_def list_all_iff)
    qed
  qed
  then show ?thesis using c1 by simp
qed

lemma early_mono: "now \<le> now' \<Longrightarrow> no_early_unlock now d \<Longrightarrow> no_early_unlock now' d"
  by (auto simp: no_early_unlock_def list_all_iff)

lemma locked_step_inv:
  assumes "locked_step user parseDate st st'" and "locked_inv st"
  shows "locked_inv st'"
  using assms
proof (cases rule: locked_step.cases)
  case (tick now now' s d)
  then show ?thesis using assms(2) by (auto simp: locked_inv_def intro: early_mono)
next
  case (edit now s d v a r u)
  then show ?thesis using assms(2) by (auto simp: locked_inv_def intro: consistent_screen_fields)
next
  case (refresh now s d)
  then show ?thesis using assms(2) by (auto simp: locked_inv_def intro: consistent_fetch)
next
  case (lock now s d s' d')
  then show ?thesis using assms(2) inv_lock[of user parseDate now s d s' d'] by (simp add: locked_inv_def)
next
  case (unlock now s r d s' d')
  then show ?thesis using assms(2) inv_unlock[of now s r user d s' d'] by (simp add: locked_inv_def)
qed

lemma locked_run_inv:
  assumes "(locked_step user parseDate)\<^sup>*\<^sup>* st st'" and "locked_inv st"
  shows "locked_inv st'"
  using assms by (induction rule: rtranclp_induct) (auto intro: locked_step_inv)

text \<open>
  C4. A saving that \<open>handleLockSavings\<close> inserts has the status \<open>active\<close> and the unlock
  date of the form. The screen offers \<open>Unlock Now\<close> for a saving exactly when the saving
  is on the screen, active, and its unlock date is not after the clock. Hence along every
  run of the screen, from a state where no saving is unlocked early, no saving is
  unlocked early.
\<close>

theorem locked_savings_gate:
  "(\<forall>s1 d1. handleLockSavings user parseDate now (s, d) = Inr (s1, d1) \<and> d1 \<noteq> d \<longrightarrow>
       (\<exists>row. locked_savings d1 = locked_savings d @ [row] \<and> status row = ''active''
                \<and> parseDate (lk_unlockDate s) = Some (unlock_date row)))
   \<and> (\<forall>r. unlock_offered now s r
             = (r \<in> set (savings s) \<and> status r = ''active'' \<and> unlock_date r \<le> now))
   \<and> (locked_inv (now, s, d) \<and> (locked_step user parseDate)\<^sup>*\<^sup>* (now, s, d) (now', s', d')
         \<longrightarrow> locked_inv (now', s', d') \<and> no_early_unlock now' d')"
proof (intro conjI allI impI)
  fix s1 d1
  assume a: "handleLockSavings user parseDate now (s, d) = Inr (s1, d1) \<and> d1 \<noteq> d"
  from lock_cases[OF a[THEN conjunct1]] a[THEN conjunct2]
  obtain uid t where "parseDate (lk_unlockDate s) = Some t"
    and "d1 = d\<lparr>locked_savings := locked_savings d @
                    [\<lparr>ls_id = next_id d, ls_user_id = uid, ls_amount = toCents (lk_amount s),
                      lock_reason = lk_reason s, locked_at = now,
                      unlock_date = t, status = ''active''\<rparr>],
                  next_id := Suc (next_id d)\<rparr>"
    by blast
  then show "\<exists>row. locked_savings d1 = locked_savings d @ [row] \<and> status row = ''active''
                \<and> parseDate (lk_unlockDate s) = Some (unlock_date row)"
    by simp
next
  fix r
  show "unlock_offered now s r
          = (r \<in> set (savings s) \<and> status r = ''active'' \<and> unlock_date r \<le> now)"
    by (auto simp: unlock_offered_def activeSavings_def isUnlockable_def)
next
  assume a: "locked_inv (now, s, d) \<and> (locked_step user parseDate)\<^sup>*\<^sup>* (now, s, d) (now', s', d')"
  then show i: "locked_inv (now', s', d')" using locked_run_inv by blast
  then show "no_early_unlock now' d'" by (simp add: locked_inv_def)
qed


theorem locked_savings_gate_witness:
  "handleLockSavings (Some ''u'') sample_parseDate 0 (sample_locked_screen [] True, empty_db)
     = Inr (sample_locked_screen [sample_saving ''active''] False, sample_locked_db ''active'')
   \<and> sample_locked_db ''active'' \<noteq> empty_db
   \<and> locked_inv (0, sample_locked_screen [] True, empty_db)
   \<and> (locked_step (Some ''u'') sample_parseDate)\<^sup>*\<^sup>*
        (0, sample_locked_screen [] True, empty_db)
        (100, sample_locked_screen [sample_saving ''unlocked''] False, sample_locked_db ''unlocked'')
   \<and> \<not> unlock_offered 99 (sample_locked_screen [sample_saving ''active''] False)
          (sample_saving ''active'')
   \<and> unlock_offered 100 (sample_locked_screen [sample_saving ''active''] False)
        (sample_saving ''active'')
   \<and> (\<exists>row. locked_savings (sample_locked_db ''active'') = locked_savings empty_db @ [row]
              \<and> status row = ''active''
              \<and> sample_parseDate (lk_unlockDate (sample_locked_screen [] True)) = Some (unlock_date row))
   \<and> locked_inv
        (100, sample_locked_screen [sample_saving ''unlocked''] False, sample_locked_db ''unlocked'')
   \<and> no_early_unlock 100 (sample_locked_db ''unlocked'')"
proof -
  let ?u = "Some ''u''"
  let ?s0 = "sample_locked_screen [] True"
  let ?s1 = "sample_locked_screen [sample_saving ''active''] False"
  let ?s2 = "sample_locked_screen [sample_saving ''unlocked''] False"
  have lk: "handleLockSavings ?u sample_parseDate 0 (?s0, empty_db) = Inr (?s1, sample_locked_db ''active'')"
    by code_simp
  have ne: "sample_locked_db ''active'' \<noteq> empty_db"
    by (simp add: sample_locked_db_def empty_db_def)
  have i0: "locked_inv (0, ?s0, empty_db)"
    by (simp add: locked_inv_def locked_consistent_def no_early_unlock_def empty_db_def
        sample_locked_screen_def)
  have off: "unlock_offered 100 ?s1 (sample_saving ''active'')"
    by (simp add: unlock_offered_def activeSavings_def isUnlockable_def sample_locked_screen_def
        sample_saving_def)
  have un: "handleUnlock ?u (ls_id (sample_saving ''active'')) (?s1, sample_locked_db ''active'')
              = (?s2, sample_locked_db ''unlocked'')"
    by code_simp
  have st1: "locked_step ?u sample_parseDate (0, ?s0, empty_db) (0, ?s1, sample_locked_db ''active'')"
    by (rule locked_step.lock[OF lk])
  have st2: "locked_step ?u sample_parseDate (0, ?s1, sample_locked_db ''active'')
               (100, ?s1, sample_locked_db ''active'')"
    by (rule locked_step.tick) simp
  have st3: "locked_step ?u sample_parseDate (100, ?s1, sample_locked_db ''active'')
               (100, ?s2, sample_locked_db ''unlocked'')"
    by (rule locked_step.unlock[OF off un])
  have run: "(locked_step ?u sample_parseDate)\<^sup>*\<^sup>* (0, ?s0, empty_db)
               (100, ?s2, sample_locked_db ''unlocked'')"
    using st1 st2 st3 by (meson rtranclp.rtrancl_into_rtrancl rtranclp.rtrancl_refl)
  note g = locked_savings_gate[where user = ?u and parseDate = sample_parseDate and now = 0
      and s = ?s0 and d = empty_db and now' = 100 and s' = ?s2 and d' = "sample_locked_db ''unlocked''"]
  note g1 = locked_savings_gate[where user = ?u and parseDate = sample_parseDate and now = 99
      and s = ?s1 and d = empty_db and now' = 99 and s' = ?s1 and d' = empty_db]
  have row: "\<exists>row. locked_savings (sample_locked_db ''active'') = locked_savings empty_db @ [row]
              \<and> status row = ''active''
              \<and> sample_parseDate (lk_unlockDate ?s0) = Some (unlock_date row)"
    using g lk ne by blast
  have inv: "locked_inv (100, ?s2, sample_locked_db ''unlocked'')"
    and early: "no_early_unlock 100 (sample_locked_db ''unlocked'')"
    using g i0 run by blast+
  have noff: "\<not> unlock_offered 99 ?s1 (sample_saving ''active'')"
    using g1 by (simp add: sample_saving_def)
  show ?thesis using lk ne i0 run noff off row inv early by blast
qed

section \<open>Monthly report: the savings rate\<close>













end
